theory Spec2Isabelle
  imports Main "HOL-Library.Word"
begin

unbundle bit_operations_syntax

section \<open>Bytes, errors and outcomes\<close>

text \<open>
  A Go \<open>[]byte\<close> is a list of 8-bit words. Every slice the program handles is made by
  \<open>make([]byte, n)\<close>, so its capacity is its length and a slice expression that reaches
  past the length panics.

  A Go function of this program ends in one of three ways: it returns normally, it returns
  a non-nil \<open>error\<close>, or it panics. Nothing in the repository recovers from a panic.
\<close>

type_synonym byte = "8 word"

datatype error = EOF | ErrUnexpectedEOF | ErrWrite | Errorf string

datatype 'a outcome = Returns 'a | Fails error | Panics

definition and_then :: "'a outcome \<Rightarrow> ('a \<Rightarrow> 'b outcome) \<Rightarrow> 'b outcome" where
  "and_then m f = (case m of Returns x \<Rightarrow> f x | Fails e \<Rightarrow> Fails e | Panics \<Rightarrow> Panics)"

section \<open>encoding/binary, big endian\<close>

text \<open>\<open>binary.BigEndian.PutUint16\<close> and \<open>PutUint32\<close>: \<open>b[0] = byte(v >> 8)\<close>, ...\<close>

definition PutUint16 :: "16 word \<Rightarrow> byte list" where
  "PutUint16 v = [ucast (drop_bit 8 v), ucast v]"

definition PutUint32 :: "32 word \<Rightarrow> byte list" where
  "PutUint32 v = [ucast (drop_bit 24 v), ucast (drop_bit 16 v), ucast (drop_bit 8 v), ucast v]"

text \<open>\<open>binary.BigEndian.Uint16\<close> and \<open>Uint32\<close>, on a slice of exactly 2 and 4 bytes:
  \<open>uint32(b[3]) | uint32(b[2])<<8 | uint32(b[1])<<16 | uint32(b[0])<<24\<close>.\<close>

definition Uint16 :: "byte list \<Rightarrow> 16 word" where
  "Uint16 b = ucast (b ! 1) OR push_bit 8 (ucast (b ! 0))"

definition Uint32 :: "byte list \<Rightarrow> 32 word" where
  "Uint32 b = ucast (b ! 3) OR push_bit 8 (ucast (b ! 2)) OR push_bit 16 (ucast (b ! 1))
     OR push_bit 24 (ucast (b ! 0))"

section \<open>The connection\<close>

text \<open>
  A \<open>net.Conn\<close> as the program sees it: \<open>inp\<close> holds the bytes the peer sends before it
  closes its side, \<open>out\<close> the bytes written so far, and \<open>wopen\<close> tells whether a write
  is accepted (a write on a broken connection returns an error and writes nothing).
\<close>

record conn =
  inp :: "byte list"
  out :: "byte list"
  wopen :: bool

text \<open>\<open>io.ReadFull(conn, buf)\<close> with \<open>len(buf) = n\<close>: an empty buffer is filled at once;
  \<open>io.EOF\<close> when no byte could be read, \<open>io.ErrUnexpectedEOF\<close> when the input ends
  inside the buffer.\<close>

definition ReadFull :: "conn \<Rightarrow> nat \<Rightarrow> (byte list \<times> conn) outcome" where
  "ReadFull c n =
     (if n = 0 then Returns ([], c)
      else if inp c = [] then Fails EOF
      else if length (inp c) < n then Fails ErrUnexpectedEOF
      else Returns (take n (inp c), c\<lparr>inp := drop n (inp c)\<rparr>))"

text \<open>\<open>binary.Read(conn, binary.BigEndian, &x)\<close> for \<open>x\<close> an \<open>int16\<close> and an \<open>int32\<close>:
  \<open>io.ReadFull\<close> of the value's size, then the big-endian decoding.\<close>

definition Read16 :: "conn \<Rightarrow> (16 word \<times> conn) outcome" where
  "Read16 c = and_then (ReadFull c 2) (\<lambda>(bs, c'). Returns (Uint16 bs, c'))"

definition Read32 :: "conn \<Rightarrow> (32 word \<times> conn) outcome" where
  "Read32 c = and_then (ReadFull c 4) (\<lambda>(bs, c'). Returns (Uint32 bs, c'))"

text \<open>\<open>binary.Write(conn, binary.BigEndian, data)\<close> for a byte slice, and for an
  \<open>int32\<close> (its four big-endian bytes).\<close>

definition Write :: "conn \<Rightarrow> byte list \<Rightarrow> conn outcome" where
  "Write c bs = (if wopen c then Returns (c\<lparr>out := out c @ bs\<rparr>) else Fails ErrWrite)"

section \<open>protocol: requests, responses and constants\<close>

record Request =
  Length :: "32 word"
  ApiKey :: "16 word"
  ApiVersion :: "16 word"
  CorrelationID :: "32 word"
  Payload :: "byte list"

text \<open>\<open>protocol.Response\<close>; a nil \<open>Payload\<close> is \<open>None\<close>.\<close>

record Response =
  rCorrelationID :: "32 word"
  rErrorCode :: "16 word"
  rPayload :: "byte list option"

definition ApiVersionsKey :: "16 word" where "ApiVersionsKey = 18"
definition DescribeTopicPartitionsKey :: "16 word" where "DescribeTopicPartitionsKey = 75"

definition ErrorNone :: "16 word" where "ErrorNone = 0"
definition ErrorUnsupportedVersion :: "16 word" where "ErrorUnsupportedVersion = 35"
definition ErrorUnknownTopic :: "16 word" where "ErrorUnknownTopic = 3"

definition MinSupportedVersion :: "16 word" where "MinSupportedVersion = 0"
definition MaxSupportedVersion :: "16 word" where "MaxSupportedVersion = 4"

definition ApiVersionsMinVersion :: "16 word" where "ApiVersionsMinVersion = 0"
definition ApiVersionsMaxVersion :: "16 word" where "ApiVersionsMaxVersion = 4"
definition DescribeTopicMinVersion :: "16 word" where "DescribeTopicMinVersion = 0"
definition DescribeTopicMaxVersion :: "16 word" where "DescribeTopicMaxVersion = 0"

section \<open>MessageParser.ReadRequest\<close>

text \<open>
  The four header fields are read one after the other, each read returning its error.
  \<open>request.Length - 8\<close> is \<open>int32\<close> arithmetic and wraps around; \<open>make\<close> panics on a
  negative length. Logging has no effect on the result.
\<close>

definition ReadRequest :: "conn \<Rightarrow> (Request \<times> conn) outcome" where
  "ReadRequest c =
     and_then (Read32 c) (\<lambda>(len, c1).
     and_then (Read16 c1) (\<lambda>(key, c2).
     and_then (Read16 c2) (\<lambda>(ver, c3).
     and_then (Read32 c3) (\<lambda>(cid, c4).
       if sint (len - 8) < 0 then Panics
       else and_then (ReadFull c4 (nat (sint (len - 8)))) (\<lambda>(payload, c5).
         Returns (\<lparr>Length = len, ApiKey = key, ApiVersion = ver,
                   CorrelationID = cid, Payload = payload\<rparr>, c5))))))"

section \<open>Byte buffers\<close>

text \<open>
  Go's \<open>int\<close> is modelled by \<open>int\<close>: on a 64-bit platform no offset or size computed by
  the handlers comes near its bounds (a payload is shorter than \<open>2^31\<close> bytes, a count or
  a name length is below 256).

  \<open>make([]byte, n)\<close> is zeroed. \<open>index b i\<close> is \<open>b[i]\<close> and \<open>slice b lo hi\<close> is
  \<open>b[lo:hi]\<close>, which panic out of range. \<open>put b off bs\<close> stores \<open>bs\<close> into
  \<open>b[off : off+len(bs)]\<close> (an indexed store, a \<open>PutUint16\<close>/\<open>PutUint32\<close> into a slice
  expression, or a \<open>copy\<close> into one) and panics when that range is not inside \<open>b\<close>.
\<close>

definition make :: "nat \<Rightarrow> byte list" where
  "make n = replicate n 0"

definition index :: "byte list \<Rightarrow> int \<Rightarrow> byte outcome" where
  "index b i = (if 0 \<le> i \<and> i < int (length b) then Returns (b ! nat i) else Panics)"

definition slice :: "byte list \<Rightarrow> int \<Rightarrow> int \<Rightarrow> byte list outcome" where
  "slice b lo hi =
     (if 0 \<le> lo \<and> lo \<le> hi \<and> hi \<le> int (length b)
      then Returns (take (nat (hi - lo)) (drop (nat lo) b)) else Panics)"

definition put :: "byte list \<Rightarrow> int \<Rightarrow> byte list \<Rightarrow> byte list outcome" where
  "put b off bs =
     (if 0 \<le> off \<and> off + int (length bs) \<le> int (length b)
      then Returns (take (nat off) b @ bs @ drop (nat off + length bs) b) else Panics)"

text \<open>The handler's buffer expansion, written out before every store:
  \<open>if responseOffset+k > len(response) { newResponse := make([]byte, len(response)*2);
  copy(newResponse, response); response = newResponse }\<close>. The buffer is doubled once,
  whatever \<open>k\<close> is.\<close>

definition grow :: "byte list \<Rightarrow> int \<Rightarrow> int \<Rightarrow> byte list" where
  "grow response responseOffset k =
     (if responseOffset + k > int (length response)
      then response @ replicate (length response) 0 else response)"

section \<open>RequestHandler: writing responses\<close>

text \<open>\<open>sendRawResponse\<close>: the length of the data as an \<open>int32\<close>, then the data; each
  write returns its error.\<close>

definition sendRawResponse :: "conn \<Rightarrow> byte list \<Rightarrow> conn outcome" where
  "sendRawResponse c data =
     and_then (Write c (PutUint32 (word_of_nat (length data)))) (\<lambda>c1. Write c1 data)"

text \<open>\<open>sendErrorResponse\<close>: a 6-byte buffer holding the correlation id and the error code.\<close>

definition sendErrorResponse :: "conn \<Rightarrow> 32 word \<Rightarrow> 16 word \<Rightarrow> conn outcome" where
  "sendErrorResponse c correlationID errorCode =
     and_then (put (make 6) 0 (PutUint32 correlationID)) (\<lambda>response.
     and_then (put response 4 (PutUint16 errorCode)) (\<lambda>response.
       sendRawResponse c response))"

text \<open>\<open>sendResponse\<close>: correlation id, error code, then the payload when there is one
  (\<open>copy(buffer[6:], response.Payload)\<close>).\<close>

definition sendResponse :: "conn \<Rightarrow> Response \<Rightarrow> conn outcome" where
  "sendResponse c response =
     (let responseSize = 6 + (case rPayload response of None \<Rightarrow> 0 | Some p \<Rightarrow> length p)
      in and_then (put (make responseSize) 0 (PutUint32 (rCorrelationID response))) (\<lambda>buffer.
         and_then (put buffer 4 (PutUint16 (rErrorCode response))) (\<lambda>buffer.
         and_then (case rPayload response of None \<Rightarrow> Returns buffer
                   | Some p \<Rightarrow> put buffer 6 p) (\<lambda>buffer.
           sendRawResponse c buffer))))"

definition handleGenericRequest :: "conn \<Rightarrow> Request \<Rightarrow> conn outcome" where
  "handleGenericRequest c req =
     sendResponse c \<lparr>rCorrelationID = CorrelationID req, rErrorCode = ErrorNone,
                     rPayload = None\<rparr>"

section \<open>handleApiVersionsRequest\<close>

text \<open>The 26-byte buffer, store by store in the order of the source.\<close>

definition handleApiVersionsRequest :: "conn \<Rightarrow> Request \<Rightarrow> conn outcome" where
  "handleApiVersionsRequest c req =
     and_then (put (make 26) 0 (PutUint32 (CorrelationID req))) (\<lambda>response.
     and_then (put response 4 (PutUint16 ErrorNone)) (\<lambda>response.
     and_then (put response 6 [3]) (\<lambda>response.
     and_then (put response 7 (PutUint16 ApiVersionsKey)) (\<lambda>response.
     and_then (put response 9 (PutUint16 ApiVersionsMinVersion)) (\<lambda>response.
     and_then (put response 11 (PutUint16 ApiVersionsMaxVersion)) (\<lambda>response.
     and_then (put response 13 [0]) (\<lambda>response.
     and_then (put response 14 (PutUint16 DescribeTopicPartitionsKey)) (\<lambda>response.
     and_then (put response 16 (PutUint16 DescribeTopicMinVersion)) (\<lambda>response.
     and_then (put response 18 (PutUint16 DescribeTopicMaxVersion)) (\<lambda>response.
     and_then (put response 20 [0]) (\<lambda>response.
     and_then (put response 21 (PutUint32 0)) (\<lambda>response.
     and_then (put response 25 [0]) (\<lambda>response.
       sendRawResponse c response)))))))))))))"

section \<open>handleDescribeTopicPartitionsRequest\<close>

text \<open>The first half of the loop body: the topic name is read from the payload at
  \<open>offset\<close>; the result is the name and the offset after it (and after a zero byte taken
  for the topic's tag buffer).\<close>

definition readTopicName :: "byte list \<Rightarrow> int \<Rightarrow> (byte list \<times> int) outcome" where
  "readTopicName payload offset =
     (if offset \<ge> int (length payload)
      then Fails (Errorf ''unexpected end of payload when reading topic name length'')
      else and_then (index payload offset) (\<lambda>b.
        let topicNameLength = uint b - 1; offset = offset + 1 in
        if offset + topicNameLength > int (length payload)
        then Fails (Errorf ''invalid topic name length or unexpected end of payload'')
        else and_then (slice payload offset (offset + topicNameLength)) (\<lambda>topicName.
          let offset = offset + topicNameLength in
          if offset < int (length payload)
          then and_then (index payload offset) (\<lambda>t.
                 if t = 0 then Returns (topicName, offset + 1)
                 else Returns (topicName, offset))
          else Returns (topicName, offset))))"

text \<open>The second half of the loop body: the topic's entry is stored at
  \<open>responseOffset\<close>. The 16 bytes of the topic id are skipped, not stored.\<close>

definition writeTopic :: "byte list \<Rightarrow> int \<Rightarrow> byte list \<Rightarrow> (byte list \<times> int) outcome" where
  "writeTopic response responseOffset topicName =
     and_then (put (grow response responseOffset 2) responseOffset
                 (PutUint16 ErrorUnknownTopic)) (\<lambda>response.
     let responseOffset = responseOffset + 2 in
     and_then (put (grow response responseOffset (1 + int (length topicName))) responseOffset
                 [word_of_nat (length topicName + 1)]) (\<lambda>response.
     let responseOffset = responseOffset + 1 in
     and_then (put response responseOffset topicName) (\<lambda>response.
     let responseOffset = responseOffset + int (length topicName);
         response = grow response responseOffset 16;
         responseOffset = responseOffset + 16 in
     and_then (put (grow response responseOffset 1) responseOffset [0]) (\<lambda>response.
     let responseOffset = responseOffset + 1 in
     and_then (put (grow response responseOffset 1) responseOffset [1]) (\<lambda>response.
     let responseOffset = responseOffset + 1 in
     and_then (put (grow response responseOffset 4) responseOffset
                 (PutUint32 0x00000df8)) (\<lambda>response.
     let responseOffset = responseOffset + 4 in
     and_then (put (grow response responseOffset 1) responseOffset [0]) (\<lambda>response.
       Returns (response, responseOffset + 1))))))))"

text \<open>\<open>for i := 0; i < topicArrayLength; i++\<close>, by the number of iterations left.\<close>

fun topicsLoop ::
  "byte list \<Rightarrow> nat \<Rightarrow> int \<Rightarrow> byte list \<Rightarrow> int \<Rightarrow> (byte list \<times> int) outcome" where
  "topicsLoop payload 0 offset response responseOffset = Returns (response, responseOffset)"
| "topicsLoop payload (Suc n) offset response responseOffset =
     and_then (readTopicName payload offset) (\<lambda>(topicName, offset).
     and_then (writeTopic response responseOffset topicName) (\<lambda>(response, responseOffset).
       topicsLoop payload n offset response responseOffset))"

definition handleDescribeTopicPartitionsRequest :: "conn \<Rightarrow> Request \<Rightarrow> conn outcome" where
  "handleDescribeTopicPartitionsRequest c req =
     (let payload = Payload req; offset = 0 in
      if offset \<ge> int (length payload)
      then Fails (Errorf ''unexpected end of payload when reading client ID length'')
      else and_then (slice payload offset (offset + 2)) (\<lambda>b.
        let clientIDLength = uint (Uint16 b); offset = offset + (2 + clientIDLength) in
        if offset \<ge> int (length payload)
        then Fails (Errorf ''unexpected end of payload when reading client ID tag buffer'')
        else let offset = offset + 1 in
        if offset \<ge> int (length payload)
        then Fails (Errorf ''unexpected end of payload when reading topics array length'')
        else and_then (index payload offset) (\<lambda>n.
          let topicArrayLength = uint n - 1 in
          if topicArrayLength < 0 then Fails (Errorf ''invalid topics array length'')
          else
            let offset = offset + 1;
                responseSize = 12 + 40 * topicArrayLength in
            and_then (put (make (nat responseSize)) 0 (PutUint32 (CorrelationID req)))
              (\<lambda>response.
            and_then (put response 4 [0]) (\<lambda>response.
            and_then (put response 5 (PutUint32 0)) (\<lambda>response.
            and_then (put response 9 [word_of_int (topicArrayLength + 1)]) (\<lambda>response.
            and_then (topicsLoop payload (nat topicArrayLength) offset response 10)
              (\<lambda>(response, responseOffset).
            and_then (put (grow response responseOffset 1) responseOffset [0xff])
              (\<lambda>response.
            let responseOffset = responseOffset + 1 in
            and_then (put (grow response responseOffset 1) responseOffset [0]) (\<lambda>response.
            let responseOffset = responseOffset + 1 in
            and_then (slice response 0 responseOffset) (\<lambda>data.
              sendRawResponse c data)))))))))))"

section \<open>RequestHandler.HandleRequest\<close>

text \<open>The version check comes first, for every api key; \<open>ApiVersion\<close> is an \<open>int16\<close> and
  the comparisons are signed.\<close>

definition HandleRequest :: "conn \<Rightarrow> Request \<Rightarrow> conn outcome" where
  "HandleRequest c req =
     (if sint (ApiVersion req) < sint MinSupportedVersion \<or>
         sint (ApiVersion req) > sint MaxSupportedVersion
      then sendErrorResponse c (CorrelationID req) ErrorUnsupportedVersion
      else if ApiKey req = ApiVersionsKey then handleApiVersionsRequest c req
      else if ApiKey req = DescribeTopicPartitionsKey
        then handleDescribeTopicPartitionsRequest c req
      else handleGenericRequest c req)"

section \<open>Response layouts\<close>

text \<open>
  The definitions of this section are not translations of handler code. They describe
  byte layouts and decode them, so that the theorems can say what a response holds.

  \<open>filled w k\<close> is a buffer whose first \<open>length w\<close> bytes are \<open>w\<close> and whose other
  \<open>k\<close> bytes are still zero.
\<close>

definition filled :: "byte list \<Rightarrow> nat \<Rightarrow> byte list" where
  "filled w k = w @ replicate k 0"

text \<open>One topic of a DescribeTopicPartitions response: error code 3, the name as a
  compact string, a 16-byte topic id, the is-internal flag, the compact length of the
  partitions array, the authorized operations and the topic's tag buffer.\<close>

definition topicEntry :: "byte list \<Rightarrow> byte list" where
  "topicEntry name =
     [0, 3] @ [word_of_nat (length name + 1)] @ name @ replicate 16 0 @
     [0] @ [1] @ [0, 0, 0x0d, 0xf8] @ [0]"

text \<open>The whole DescribeTopicPartitions response: correlation id, header tag buffer,
  throttle time, compact length of the topics array, the topics, the null cursor and the
  tag buffer.\<close>

definition describeBody :: "32 word \<Rightarrow> byte list list \<Rightarrow> byte list" where
  "describeBody cid names =
     PutUint32 cid @ [0] @ [0, 0, 0, 0] @ [word_of_nat (length names + 1)] @
     concat (map topicEntry names) @ [0xff, 0]"

text \<open>The names the handler's loop reads, by \<open>readTopicName\<close> itself: \<open>n\<close> names from
  \<open>offset\<close> on. \<open>requestedTopics\<close> starts where the handler starts, after the client id,
  its tag buffer and the count byte.\<close>

fun readNames :: "byte list \<Rightarrow> nat \<Rightarrow> int \<Rightarrow> byte list list" where
  "readNames payload 0 offset = []"
| "readNames payload (Suc n) offset =
     (case readTopicName payload offset of
        Returns (topicName, offset') \<Rightarrow> topicName # readNames payload n offset'
      | _ \<Rightarrow> [])"

definition requestedTopics :: "byte list \<Rightarrow> byte list list" where
  "requestedTopics payload =
     (let offset = 2 + uint (Uint16 (take 2 payload)) + 1
      in readNames payload (nat (uint (payload ! nat offset) - 1)) (offset + 1))"

text \<open>A reader of an ApiVersions response body: byte 6 is the compact length of the
  array of api keys, each entry is a key, a minimum and a maximum version (2 bytes each)
  and a tag buffer byte; the throttle time follows the array.\<close>

fun decodeApiKeys :: "nat \<Rightarrow> byte list \<Rightarrow> (16 word \<times> 16 word \<times> 16 word) list" where
  "decodeApiKeys 0 bs = []"
| "decodeApiKeys (Suc n) bs =
     (Uint16 (take 2 bs), Uint16 (take 2 (drop 2 bs)), Uint16 (take 2 (drop 4 bs))) #
     decodeApiKeys n (drop 7 bs)"

definition apiKeysOf :: "byte list \<Rightarrow> (16 word \<times> 16 word \<times> 16 word) list" where
  "apiKeysOf resp = decodeApiKeys (unat (resp ! 6) - 1) (drop 7 resp)"

definition throttleOf :: "byte list \<Rightarrow> 32 word" where
  "throttleOf resp = Uint32 (take 4 (drop (7 + 7 * (unat (resp ! 6) - 1)) resp))"

text \<open>The 26 bytes that \<open>handleApiVersionsRequest\<close> stores, as one list.\<close>

definition apiVersionsBody :: "32 word \<Rightarrow> byte list" where
  "apiVersionsBody cid =
     PutUint32 cid @ [0, 0] @ [3] @ [0, 18, 0, 0, 0, 4, 0] @ [0, 75, 0, 0, 0, 0, 0] @
     [0, 0, 0, 0] @ [0]"

section \<open>Example inputs\<close>

definition openConn :: conn where
  "openConn = \<lparr>inp = [], out = [], wopen = True\<rparr>"

definition apiVersionsV4 :: Request where
  "apiVersionsV4 = \<lparr>Length = 8, ApiKey = 18, ApiVersion = 4, CorrelationID = 7,
                      Payload = []\<rparr>"

definition apiVersionsV5 :: Request where
  "apiVersionsV5 = \<lparr>Length = 8, ApiKey = 18, ApiVersion = 5, CorrelationID = 7,
                      Payload = []\<rparr>"

section \<open>Lemmas\<close>

lemma Uint32_PutUint32: "Uint32 (PutUint32 v) = v"
proof (rule bit_word_eqI)
  fix n assume n: "n < LENGTH(32)"
  consider "n < 8" | "8 \<le> n \<and> n < 16" | "16 \<le> n \<and> n < 24" | "24 \<le> n \<and> n < 32"
    using n by fastforce
  then show "bit (Uint32 (PutUint32 v)) n = bit v n"
  proof cases
    case 1 then show ?thesis by (simp add: Uint32_def PutUint32_def bit_simps; auto)
  next
    case 2 then show ?thesis by (simp add: Uint32_def PutUint32_def bit_simps; auto)
  next
    case 3 then show ?thesis by (simp add: Uint32_def PutUint32_def bit_simps; auto)
  next
    case 4 then show ?thesis by (simp add: Uint32_def PutUint32_def bit_simps; auto)
  qed
qed

lemma Uint16_PutUint16: "Uint16 (PutUint16 v) = v"
proof (rule bit_word_eqI)
  fix n assume n: "n < LENGTH(16)"
  consider "n < 8" | "8 \<le> n \<and> n < 16"
    using n by fastforce
  then show "bit (Uint16 (PutUint16 v)) n = bit v n"
  proof cases
    case 1 then show ?thesis by (simp add: Uint16_def PutUint16_def bit_simps; auto)
  next
    case 2 then show ?thesis by (simp add: Uint16_def PutUint16_def bit_simps; auto)
  qed
qed

lemma byte_bit_high: "\<not> bit (b :: byte) (8 + n)" "\<not> bit (b :: byte) (16 + n)" "\<not> bit (b :: byte) (24 + n)"
  by (auto dest: bit_imp_le_length)

lemma PutUint32_Uint32_aux: "PutUint32 (Uint32 [b0, b1, b2, b3]) = [b0, b1, b2, b3]"
proof -
  have "ucast (drop_bit 24 (Uint32 [b0, b1, b2, b3])) = b0"
    by (rule bit_word_eqI) (simp add: Uint32_def bit_simps byte_bit_high; auto)
  moreover have "ucast (drop_bit 16 (Uint32 [b0, b1, b2, b3])) = b1"
    by (rule bit_word_eqI) (simp add: Uint32_def bit_simps byte_bit_high; auto)
  moreover have "ucast (drop_bit 8 (Uint32 [b0, b1, b2, b3])) = b2"
    by (rule bit_word_eqI) (simp add: Uint32_def bit_simps byte_bit_high; auto)
  moreover have "ucast (Uint32 [b0, b1, b2, b3]) = b3"
    by (rule bit_word_eqI) (simp add: Uint32_def bit_simps byte_bit_high; auto)
  ultimately show ?thesis by (simp add: PutUint32_def)
qed

lemma PutUint16_Uint16_aux: "PutUint16 (Uint16 [b0, b1]) = [b0, b1]"
proof -
  have "ucast (drop_bit 8 (Uint16 [b0, b1])) = b0"
    by (rule bit_word_eqI) (simp add: Uint16_def bit_simps byte_bit_high; auto)
  moreover have "ucast (Uint16 [b0, b1]) = b1"
    by (rule bit_word_eqI) (simp add: Uint16_def bit_simps byte_bit_high; auto)
  ultimately show ?thesis by (simp add: PutUint16_def)
qed

lemma and_then_Returns [simp]: "and_then (Returns x) f = f x"
  by (simp add: and_then_def)

lemma and_then_Fails [simp]: "and_then (Fails e) f = Fails e"
  by (simp add: and_then_def)

lemma and_then_Panics [simp]: "and_then Panics f = Panics"
  by (simp add: and_then_def)

lemma and_then_eq_Returns:
  "(and_then m f = Returns y) = (\<exists>x. m = Returns x \<and> f x = Returns y)"
  by (cases m) simp_all

lemma length_PutUint16 [simp]: "length (PutUint16 v) = 2"
  by (simp add: PutUint16_def)

lemma length_PutUint32 [simp]: "length (PutUint32 v) = 4"
  by (simp add: PutUint32_def)

lemma length_filled [simp]: "length (filled w k) = length w + k"
  by (simp add: filled_def)

lemma grow_filled:
  "\<exists>k'. grow (filled w k) off j = filled w k' \<and> k \<le> k' \<and>
     (off = int (length w) \<longrightarrow> j \<le> int (length w + k) \<longrightarrow> j \<le> int k')"
  by (auto simp add: grow_def filled_def replicate_add [symmetric] simp del: replicate_add)

lemma put_filled:
  "put (filled w k) (int (length w)) bs = Returns r \<Longrightarrow>
     length bs \<le> k \<and> r = filled (w @ bs) (k - length bs)"
  by (auto simp add: put_def filled_def split: if_splits)

lemma put_grow_filled:
  assumes "put (grow b off j) off bs = Returns r" "b = filled w k" "off = int (length w)"
  shows "\<exists>k'. r = filled (w @ bs) k' \<and> length w + k \<le> length (w @ bs) + k'"
proof -
  obtain k1 where k1: "grow b off j = filled w k1" "k \<le> k1"
    using grow_filled [of w k off j] assms(2) by auto
  from assms(1) have "length bs \<le> k1 \<and> r = filled (w @ bs) (k1 - length bs)"
    using put_filled [of w k1 bs r] k1 assms(3) by simp
  then show ?thesis using k1 by (intro exI [of _ "k1 - length bs"]) auto
qed

lemma skip_filled:
  assumes "b = filled w k" "off = int (length w)" "z \<le> int (length w + k)"
  shows "\<exists>k'. grow b off z = filled (w @ replicate (nat z) 0) k' \<and>
           length w + k \<le> length (w @ replicate (nat z) 0) + k'"
proof -
  obtain k1 where k1: "grow b off z = filled w k1" "k \<le> k1" "z \<le> int k1"
    using grow_filled [of w k off z] assms by auto
  have "filled w k1 = filled (w @ replicate (nat z) 0) (k1 - nat z)"
    using k1(3) by (simp add: filled_def replicate_add [symmetric] del: replicate_add)
  then show ?thesis using k1 by (intro exI [of _ "k1 - nat z"]) auto
qed

lemma PutUint16_3: "PutUint16 ErrorUnknownTopic = [0, 3]"
  by (simp add: PutUint16_def ErrorUnknownTopic_def)

lemma PutUint32_df8: "PutUint32 0x00000df8 = [0, 0, 0x0d, 0xf8]"
  by (simp add: PutUint32_def)

lemma writeTopic_shape:
  assumes wt: "writeTopic (filled w k) (int (length w)) name = Returns (r', ro')"
    and big: "16 \<le> length w + k"
  shows "\<exists>k'. r' = filled (w @ topicEntry name) k' \<and>
           ro' = int (length (w @ topicEntry name)) \<and>
           length w + k \<le> length (w @ topicEntry name) + k'"
proof -
  from wt obtain r1 r2 r3 r4 r5 r6 r7 where
    s1: "put (grow (filled w k) (int (length w)) 2) (int (length w))
           (PutUint16 ErrorUnknownTopic) = Returns r1" and
    s2: "put (grow r1 (int (length w) + 2) (1 + int (length name))) (int (length w) + 2)
           [word_of_nat (length name + 1)] = Returns r2" and
    s3: "put r2 (int (length w) + 2 + 1) name = Returns r3" and
    s4: "put (grow (grow r3 (int (length w) + 2 + 1 + int (length name)) 16)
                (int (length w) + 2 + 1 + int (length name) + 16) 1)
           (int (length w) + 2 + 1 + int (length name) + 16) [0] = Returns r4" and
    s5: "put (grow r4 (int (length w) + 2 + 1 + int (length name) + 16 + 1) 1)
           (int (length w) + 2 + 1 + int (length name) + 16 + 1) [1] = Returns r5" and
    s6: "put (grow r5 (int (length w) + 2 + 1 + int (length name) + 16 + 1 + 1) 4)
           (int (length w) + 2 + 1 + int (length name) + 16 + 1 + 1)
           (PutUint32 0x00000df8) = Returns r6" and
    s7: "put (grow r6 (int (length w) + 2 + 1 + int (length name) + 16 + 1 + 1 + 4) 1)
           (int (length w) + 2 + 1 + int (length name) + 16 + 1 + 1 + 4) [0] = Returns r7" and
    res: "r' = r7"
         "ro' = int (length w) + 2 + 1 + int (length name) + 16 + 1 + 1 + 4 + 1"
    unfolding writeTopic_def Let_def and_then_eq_Returns by auto
  let ?w1 = "w @ [0, 3]"
  obtain k1 where r1: "r1 = filled ?w1 k1" "length w + k \<le> length ?w1 + k1"
    using put_grow_filled [OF s1 refl refl] by (auto simp add: PutUint16_3)
  let ?w2 = "?w1 @ [word_of_nat (length name + 1)]"
  obtain k2 where r2: "r2 = filled ?w2 k2" "length ?w1 + k1 \<le> length ?w2 + k2"
    using put_grow_filled [OF s2 r1(1)] by auto
  let ?w3 = "?w2 @ name"
  have "put (grow r2 (int (length ?w2)) 0) (int (length ?w2)) name = Returns r3"
    using s3 r2(1) by (simp add: grow_def)
  then obtain k3 where r3: "r3 = filled ?w3 k3" "length ?w2 + k2 \<le> length ?w3 + k3"
    using put_grow_filled [OF _ r2(1) refl] by blast
  let ?w4 = "?w3 @ replicate 16 0"
  have big3: "(16::int) \<le> int (length ?w3 + k3)"
    using big r1(2) r2(2) r3(2) by linarith
  obtain k4 where r4': "grow r3 (int (length ?w3)) 16 = filled ?w4 k4"
      "length ?w3 + k3 \<le> length ?w4 + k4"
    using skip_filled [OF r3(1) refl big3] by auto
  let ?w5 = "?w4 @ [0]"
  have "put (grow (filled ?w4 k4) (int (length ?w4)) 1) (int (length ?w4)) [0] = Returns r4"
    using s4 r4'(1) by (simp add: add.commute add.left_commute)
  then obtain k5 where r4: "r4 = filled ?w5 k5" "length ?w4 + k4 \<le> length ?w5 + k5"
    using put_grow_filled [OF _ refl refl] by blast
  let ?w6 = "?w5 @ [1]"
  obtain k6 where r5: "r5 = filled ?w6 k6" "length ?w5 + k5 \<le> length ?w6 + k6"
    using put_grow_filled [OF s5 r4(1)] by auto
  let ?w7 = "?w6 @ [0, 0, 0x0d, 0xf8]"
  obtain k7 where r6: "r6 = filled ?w7 k7" "length ?w6 + k6 \<le> length ?w7 + k7"
    using put_grow_filled [OF s6 r5(1)] by (auto simp add: PutUint32_df8)
  let ?w8 = "?w7 @ [0]"
  obtain k8 where r7: "r7 = filled ?w8 k8" "length ?w7 + k7 \<le> length ?w8 + k8"
    using put_grow_filled [OF s7 r6(1)] by auto
  have w8: "?w8 = w @ topicEntry name"
    by (simp add: topicEntry_def)
  have "length w + k \<le> length ?w8 + k8"
    using r1(2) r2(2) r3(2) r4'(2) r4(2) r5(2) r6(2) r7(2) by linarith
  moreover have "ro' = int (length ?w8)"
    using res(2) by simp
  ultimately show ?thesis
    using r7(1) res(1) unfolding w8 by blast
qed

lemma readTopicName_length:
  "readTopicName payload offset = Returns (name, offset') \<Longrightarrow> length name \<le> 254"
proof -
  assume a: "readTopicName payload offset = Returns (name, offset')"
  have "uint (payload ! nat offset) < 256"
    using uint_bounded [of "payload ! nat offset"] by simp
  with a show ?thesis
    by (auto simp add: readTopicName_def Let_def index_def slice_def and_then_eq_Returns
          split: if_splits)
qed

lemma topicsLoop_shape:
  "topicsLoop payload n offset (filled w k) (int (length w)) = Returns (r', ro') \<Longrightarrow>
   n = 0 \<or> 16 \<le> length w + k \<Longrightarrow>
   \<exists>k'. r' = filled (w @ concat (map topicEntry (readNames payload n offset))) k' \<and>
        ro' = int (length (w @ concat (map topicEntry (readNames payload n offset)))) \<and>
        length (readNames payload n offset) = n \<and>
        (\<forall>nm \<in> set (readNames payload n offset). length nm \<le> 254)"
proof (induction n arbitrary: offset w k)
  case 0
  then show ?case by auto
next
  case (Suc n)
  from Suc.prems(1) obtain name offset1 r1 ro1 where
    rd: "readTopicName payload offset = Returns (name, offset1)" and
    wr: "writeTopic (filled w k) (int (length w)) name = Returns (r1, ro1)" and
    lp: "topicsLoop payload n offset1 r1 ro1 = Returns (r', ro')"
    by (auto simp add: and_then_eq_Returns)
  have big: "16 \<le> length w + k" using Suc.prems(2) by simp
  obtain k1 where k1: "r1 = filled (w @ topicEntry name) k1"
      "ro1 = int (length (w @ topicEntry name))"
      "length w + k \<le> length (w @ topicEntry name) + k1"
    using writeTopic_shape [OF wr big] by blast
  have big1: "n = 0 \<or> 16 \<le> length (w @ topicEntry name) + k1"
    using big k1(3) by linarith
  from Suc.IH [OF lp [unfolded k1(1) k1(2)] big1]
  obtain k' where k': "r' = filled ((w @ topicEntry name) @
        concat (map topicEntry (readNames payload n offset1))) k'"
      "ro' = int (length ((w @ topicEntry name) @
        concat (map topicEntry (readNames payload n offset1))))"
      "length (readNames payload n offset1) = n"
      "\<forall>nm \<in> set (readNames payload n offset1). length nm \<le> 254"
    by blast
  have rn: "readNames payload (Suc n) offset = name # readNames payload n offset1"
    using rd by simp
  show ?case
    unfolding rn using k' readTopicName_length [OF rd] by (intro exI [of _ k']) simp
qed

lemma make_filled: "make n = filled [] n"
  by (simp add: make_def filled_def)

lemma put_filled_eq:
  "off = int (length w) \<Longrightarrow>
   put (filled w k) off bs =
     (if length bs \<le> k then Returns (filled (w @ bs) (k - length bs)) else Panics)"
  by (auto simp add: put_def filled_def)

lemma slice_filled: "slice (filled w k) 0 (int (length w)) = Returns w"
  by (simp add: slice_def filled_def)

lemma handleDescribe_shape:
  assumes "handleDescribeTopicPartitionsRequest c req = Returns c'"
  shows "sendRawResponse c (describeBody (CorrelationID req) (requestedTopics (Payload req)))
           = Returns c' \<and>
         length (requestedTopics (Payload req)) \<le> 254 \<and>
         (\<forall>nm \<in> set (requestedTopics (Payload req)). length nm \<le> 254)"
proof -
  let ?p = "Payload req"
  let ?off = "2 + uint (Uint16 (take 2 ?p)) + 1"
  let ?n = "?p ! nat ?off"
  let ?N = "uint ?n - 1"
  let ?hdr = "PutUint32 (CorrelationID req) @ [0] @ PutUint32 0 @ [word_of_int (?N + 1)]"
  let ?names = "readNames ?p (nat ?N) (?off + 1)"
  have sl: "slice ?p 0 2 = Returns (take 2 ?p) \<or> slice ?p 0 2 = Panics"
    by (simp add: slice_def)
  from assms obtain r ro r2 r3 where
    N0: "0 \<le> ?N" and
    lp: "topicsLoop ?p (nat ?N) (?off + 1) (filled ?hdr (nat (12 + 40 * ?N) - 10)) 10
           = Returns (r, ro)" and
    p1: "put (grow r ro 1) ro [0xff] = Returns r2" and
    p2: "put (grow r2 (ro + 1) 1) (ro + 1) [0] = Returns r3" and
    fin: "and_then (slice r3 0 (ro + 1 + 1)) (sendRawResponse c) = Returns c'"
    using sl unfolding handleDescribeTopicPartitionsRequest_def Let_def
    by (auto simp add: and_then_eq_Returns make_filled put_filled_eq index_def
          split: if_splits)
  have hl: "(10::int) = int (length ?hdr)" by simp
  have big: "nat ?N = 0 \<or> 16 \<le> length ?hdr + (nat (12 + 40 * ?N) - 10)"
    using N0 by auto
  obtain k1 where k1: "r = filled (?hdr @ concat (map topicEntry ?names)) k1"
      "ro = int (length (?hdr @ concat (map topicEntry ?names)))"
      "length ?names = nat ?N"
      "\<forall>nm \<in> set ?names. length nm \<le> 254"
    using topicsLoop_shape [OF lp [unfolded hl] big] by blast
  let ?w1 = "?hdr @ concat (map topicEntry ?names)"
  obtain k2 where k2: "r2 = filled (?w1 @ [0xff]) k2"
    using put_grow_filled [OF p1 k1(1) k1(2)] by blast
  have ro1: "ro + 1 = int (length (?w1 @ [0xff]))" using k1(2) by simp
  obtain k3 where k3: "r3 = filled ((?w1 @ [0xff]) @ [0]) k3"
    using put_grow_filled [OF p2 k2 ro1] by blast
  have ro2: "ro + 1 + 1 = int (length ((?w1 @ [0xff]) @ [0]))" using k1(2) by simp
  have sl3: "slice r3 0 (ro + 1 + 1) = Returns ((?w1 @ [0xff]) @ [0])"
    unfolding k3 ro2 by (rule slice_filled)
  have cnt: "(word_of_nat (length ?names + 1) :: byte) = word_of_int (?N + 1)"
  proof -
    have "(word_of_nat (length ?names + 1) :: byte) = word_of_int (int (length ?names + 1))"
      by (simp only: of_int_of_nat_eq)
    also have "int (length ?names + 1) = ?N + 1" using k1(3) N0 by simp
    finally show ?thesis .
  qed
  have rt: "requestedTopics ?p = ?names"
    by (simp add: requestedTopics_def Let_def)
  have body: "(?w1 @ [0xff]) @ [0] = describeBody (CorrelationID req) (requestedTopics ?p)"
    unfolding rt describeBody_def cnt by (simp add: PutUint32_def)
  have len: "length ?names \<le> 254"
    using k1(3) uint_bounded [of ?n] by simp
  have "sendRawResponse c ((?w1 @ [0xff]) @ [0]) = Returns c'"
    using fin unfolding sl3 by simp
  then have "sendRawResponse c (describeBody (CorrelationID req) (requestedTopics ?p))
      = Returns c'"
    unfolding body .
  then show ?thesis
    using k1(4) len unfolding rt by blast
qed

lemma filled_0: "filled w 0 = w"
  by (simp add: filled_def)

lemma sendRawResponse_open:
  "wopen c \<Longrightarrow> sendRawResponse c d =
     Returns (c\<lparr>out := out c @ PutUint32 (word_of_nat (length d)) @ d\<rparr>)"
  by (simp add: sendRawResponse_def Write_def)

lemma sendRawResponse_Returns:
  "sendRawResponse c d = Returns c' \<Longrightarrow>
     wopen c \<and> c' = c\<lparr>out := out c @ PutUint32 (word_of_nat (length d)) @ d\<rparr>"
  by (auto simp add: sendRawResponse_def Write_def and_then_eq_Returns split: if_splits)

lemma sendErrorResponse_eq:
  "sendErrorResponse c cid e = sendRawResponse c (PutUint32 cid @ PutUint16 e)"
  by (simp add: sendErrorResponse_def make_filled put_filled_eq filled_0)

lemma handleGenericRequest_eq:
  "handleGenericRequest c req =
     sendRawResponse c (PutUint32 (CorrelationID req) @ PutUint16 ErrorNone)"
  by (simp add: handleGenericRequest_def sendResponse_def make_filled put_filled_eq filled_0)

lemma PutUint16_consts:
  "PutUint16 ErrorNone = [0, 0]" "PutUint16 ApiVersionsKey = [0, 18]"
  "PutUint16 ApiVersionsMinVersion = [0, 0]" "PutUint16 ApiVersionsMaxVersion = [0, 4]"
  "PutUint16 DescribeTopicPartitionsKey = [0, 75]"
  "PutUint16 DescribeTopicMinVersion = [0, 0]" "PutUint16 DescribeTopicMaxVersion = [0, 0]"
  "PutUint16 ErrorUnsupportedVersion = [0, 35]"
  by (simp_all add: PutUint16_def ErrorNone_def ApiVersionsKey_def ApiVersionsMinVersion_def
        ApiVersionsMaxVersion_def DescribeTopicPartitionsKey_def DescribeTopicMinVersion_def
        DescribeTopicMaxVersion_def ErrorUnsupportedVersion_def)

lemma PutUint32_0: "PutUint32 0 = [0, 0, 0, 0]"
  by (simp add: PutUint32_def)

lemma handleApiVersionsRequest_eq:
  "handleApiVersionsRequest c req = sendRawResponse c (apiVersionsBody (CorrelationID req))"
  by (simp add: handleApiVersionsRequest_def apiVersionsBody_def make_filled put_filled_eq
        PutUint16_consts PutUint32_0 filled_0)

lemma Uint16_pairs:
  "Uint16 [0, 18] = 18" "Uint16 [0, 0] = 0" "Uint16 [0, 4] = 4" "Uint16 [0, 75] = 75"
  by (simp_all add: Uint16_def)

lemma decodeApiKeys_2:
  "decodeApiKeys 2 bs =
     [(Uint16 (take 2 bs), Uint16 (take 2 (drop 2 bs)), Uint16 (take 2 (drop 4 bs))),
      (Uint16 (take 2 (drop 7 bs)), Uint16 (take 2 (drop 9 bs)),
       Uint16 (take 2 (drop 11 bs)))]"
  by (simp add: numeral_2_eq_2)

lemma apiVersionsBody_props:
  "length (apiVersionsBody cid) = 26"
  "take 4 (apiVersionsBody cid) = PutUint32 cid"
  "Uint16 (take 2 (drop 4 (apiVersionsBody cid))) = 0"
  "apiKeysOf (apiVersionsBody cid) = [(18, 0, 4), (75, 0, 0)]"
  "throttleOf (apiVersionsBody cid) = 0"
  by (simp_all add: apiVersionsBody_def apiKeysOf_def throttleOf_def PutUint32_def
        Uint16_pairs Uint32_def decodeApiKeys_2)

lemma version_gate:
  "(sint (ApiVersion req) < sint MinSupportedVersion \<or>
    sint (ApiVersion req) > sint MaxSupportedVersion) =
   (sint (ApiVersion req) < 0 \<or> 4 < sint (ApiVersion req))"
  by (simp add: MinSupportedVersion_def MaxSupportedVersion_def)

section \<open>The claims\<close>

text \<open>
  C1. For every ApiVersions request (api key 18) whose api version is in [0,4], on a
  connection that accepts writes, \<open>HandleRequest\<close> runs \<open>handleApiVersionsRequest\<close>, which
  writes one frame; the response in it starts with the big-endian correlation id of the
  request, its error code is 0, and its array of api keys has an entry for key 18 whose
  maximum version is at least 4.
\<close>

theorem apiVersions_reply:
  assumes "ApiKey req = ApiVersionsKey"
    and "0 \<le> sint (ApiVersion req)" and "sint (ApiVersion req) \<le> 4"
    and "wopen c"
  shows "\<exists>resp.
      HandleRequest c req =
        Returns (c\<lparr>out := out c @ PutUint32 (word_of_nat (length resp)) @ resp\<rparr>) \<and>
      handleApiVersionsRequest c req = HandleRequest c req \<and>
      take 4 resp = PutUint32 (CorrelationID req) \<and>
      Uint32 (take 4 resp) = CorrelationID req \<and>
      Uint16 (take 2 (drop 4 resp)) = 0 \<and>
      (\<exists>(k, lo, hi) \<in> set (apiKeysOf resp). k = 18 \<and> 4 \<le> sint hi)"
proof -
  have h: "HandleRequest c req = handleApiVersionsRequest c req"
    using assms(1-3) by (simp add: HandleRequest_def version_gate)
  show ?thesis
    using assms(4) unfolding h handleApiVersionsRequest_eq
    by (intro exI [of _ "apiVersionsBody (CorrelationID req)"])
       (simp add: sendRawResponse_open apiVersionsBody_props Uint32_PutUint32)
qed

theorem apiVersions_reply_witness:
  "ApiKey apiVersionsV4 = ApiVersionsKey \<and>
   0 \<le> sint (ApiVersion apiVersionsV4) \<and> sint (ApiVersion apiVersionsV4) \<le> 4 \<and>
   wopen openConn \<and>
   (\<exists>resp.
      HandleRequest openConn apiVersionsV4 =
        Returns (openConn\<lparr>out := out openConn @ PutUint32 (word_of_nat (length resp)) @ resp\<rparr>) \<and>
      handleApiVersionsRequest openConn apiVersionsV4 = HandleRequest openConn apiVersionsV4 \<and>
      take 4 resp = PutUint32 (CorrelationID apiVersionsV4) \<and>
      Uint32 (take 4 resp) = CorrelationID apiVersionsV4 \<and>
      Uint16 (take 2 (drop 4 resp)) = 0 \<and>
      (\<exists>(k, lo, hi) \<in> set (apiKeysOf resp). k = 18 \<and> 4 \<le> sint hi))"
proof -
  have h1: "ApiKey apiVersionsV4 = ApiVersionsKey"
    by (simp add: apiVersionsV4_def ApiVersionsKey_def)
  have h2: "0 \<le> sint (ApiVersion apiVersionsV4)" by (simp add: apiVersionsV4_def)
  have h3: "sint (ApiVersion apiVersionsV4) \<le> 4" by (simp add: apiVersionsV4_def)
  have h4: "wopen openConn" by (simp add: openConn_def)
  from apiVersions_reply [OF h1 h2 h3 h4] h1 h2 h3 h4 show ?thesis by blast
qed

text \<open>
  C5. For every ApiVersions request with version in [0,4], on a connection that accepts
  writes, the response body is 26 bytes long and lists exactly two api keys, 18 with the
  version range [0,4] and 75 with the range [0,0], followed by a throttle time of zero.
\<close>

theorem apiVersions_body:
  assumes "ApiKey req = ApiVersionsKey"
    and "0 \<le> sint (ApiVersion req)" and "sint (ApiVersion req) \<le> 4"
    and "wopen c"
  shows "\<exists>resp.
      HandleRequest c req =
        Returns (c\<lparr>out := out c @ PutUint32 (word_of_nat (length resp)) @ resp\<rparr>) \<and>
      length resp = 26 \<and>
      apiKeysOf resp = [(18, 0, 4), (75, 0, 0)] \<and>
      throttleOf resp = 0"
proof -
  have h: "HandleRequest c req = handleApiVersionsRequest c req"
    using assms(1-3) by (simp add: HandleRequest_def version_gate)
  show ?thesis
    using assms(4) unfolding h handleApiVersionsRequest_eq
    by (intro exI [of _ "apiVersionsBody (CorrelationID req)"])
       (simp add: sendRawResponse_open apiVersionsBody_props)
qed

theorem apiVersions_body_witness:
  "ApiKey apiVersionsV4 = ApiVersionsKey \<and>
   0 \<le> sint (ApiVersion apiVersionsV4) \<and> sint (ApiVersion apiVersionsV4) \<le> 4 \<and>
   wopen openConn \<and>
   (\<exists>resp.
      HandleRequest openConn apiVersionsV4 =
        Returns (openConn\<lparr>out := out openConn @ PutUint32 (word_of_nat (length resp)) @ resp\<rparr>) \<and>
      length resp = 26 \<and>
      apiKeysOf resp = [(18, 0, 4), (75, 0, 0)] \<and>
      throttleOf resp = 0)"
proof -
  have h1: "ApiKey apiVersionsV4 = ApiVersionsKey"
    by (simp add: apiVersionsV4_def ApiVersionsKey_def)
  have h2: "0 \<le> sint (ApiVersion apiVersionsV4)" by (simp add: apiVersionsV4_def)
  have h3: "sint (ApiVersion apiVersionsV4) \<le> 4" by (simp add: apiVersionsV4_def)
  have h4: "wopen openConn" by (simp add: openConn_def)
  from apiVersions_body [OF h1 h2 h3 h4] h1 h2 h3 h4 show ?thesis by blast
qed

text \<open>
  C2. For every request whose api version is outside [0,4], whatever its api key, on a
  connection that accepts writes, \<open>HandleRequest\<close> returns without an error after
  writing the length prefix 6 and six bytes: the request's correlation id and the error
  code 35.
\<close>

theorem unsupported_version_reply:
  assumes "sint (ApiVersion req) < 0 \<or> 4 < sint (ApiVersion req)" and "wopen c"
  shows "HandleRequest c req =
      Returns (c\<lparr>out := out c @ [0, 0, 0, 6] @ PutUint32 (CorrelationID req) @ [0, 35]\<rparr>)"
proof -
  have "HandleRequest c req =
      sendErrorResponse c (CorrelationID req) ErrorUnsupportedVersion"
    using assms(1) unfolding HandleRequest_def version_gate by simp
  then show ?thesis
    using assms(2)
    by (simp add: sendErrorResponse_eq sendRawResponse_open PutUint16_consts)
       (simp add: PutUint32_def)
qed

theorem unsupported_version_reply_witness:
  "(sint (ApiVersion apiVersionsV5) < 0 \<or> 4 < sint (ApiVersion apiVersionsV5)) \<and>
   wopen openConn \<and>
   HandleRequest openConn apiVersionsV5 =
     Returns (openConn\<lparr>out := out openConn @ [0, 0, 0, 6] @
       PutUint32 (CorrelationID apiVersionsV5) @ [0, 35]\<rparr>)"
proof -
  have h1: "sint (ApiVersion apiVersionsV5) < 0 \<or> 4 < sint (ApiVersion apiVersionsV5)"
    by (simp add: apiVersionsV5_def)
  have h2: "wopen openConn" by (simp add: openConn_def)
  from unsupported_version_reply [OF h1 h2] h1 h2 show ?thesis by blast
qed

end
